theory Spec2Isabelle
  imports Main "HOL-Library.Word"
begin

section \<open>The compile cache and the run sessions of \<open>src/vm/engine.cc\<close>\<close>

text \<open>
  A shallow embedding of \<open>fesql::vm::Engine\<close> and of the two \<open>RunSession\<close> classes.
  Mutation is explicit state passing over a \<open>World\<close>: the engine object, the heap on
  which the \<open>CompileInfo\<close> objects live, and the history of calls made to the
  SQL compiler. A block that the source runs under the lock \<open>mu\<close> is one definition, so it is
  one atomic step.
\<close>

subsection \<open>Pointers, rows and status\<close>

text \<open>
  A \<open>std::shared_ptr\<close> is either null or the address of an object. Two pointers are
  the same object exactly when their addresses are equal.
\<close>

datatype shared_ptr = Null | Ptr nat

type_synonym Row = string

type_synonym Schema = "string list"

text \<open>
  Modelled from the spec: \<open>base::Status\<close> is declared outside \<open>engine.cc\<close>; the "status
  carries a numeric code, zero meaning success, and a message".
\<close>

record Status =
  code :: int
  msg :: string

subsection \<open>Output handlers\<close>

text \<open>
  Modelled from the spec: the handler classes are declared outside \<open>engine.cc\<close>.
  A table handler "exposes a restartable iterator over an ordered sequence of rows":
  the iterator is the sequence together with a position, \<open>SeekToFirst\<close> restarts it,
  and \<open>GetIterator\<close> may give no iterator (the source tests for that).
\<close>

datatype RowIterator = RowIterator (it_rows: "Row list") (it_pos: nat)

definition SeekToFirst :: "RowIterator \<Rightarrow> RowIterator" where
  "SeekToFirst iter = RowIterator (it_rows iter) 0"

definition Valid :: "RowIterator \<Rightarrow> bool" where
  "Valid iter = (it_pos iter < length (it_rows iter))"

definition GetValue :: "RowIterator \<Rightarrow> Row" where
  "GetValue iter = it_rows iter ! it_pos iter"

definition Next :: "RowIterator \<Rightarrow> RowIterator" where
  "Next iter = RowIterator (it_rows iter) (Suc (it_pos iter))"

datatype TableHandler = TableHandler (GetIterator: "RowIterator option")

datatype HandlerType = kTableHandler | kRowHandler | kPartitionHandler

text \<open>
  The closed three-variant hierarchy. A partition handler is "a table logically
  subdivided by key". \<open>GetHanlderType\<close> (the source's spelling) reports the variant;
  a \<open>std::dynamic_pointer_cast\<close> gives the object when it has the requested class and
  the null pointer otherwise.
\<close>

datatype DataHandler =
    Table TableHandler
  | RowHandler Row
  | PartitionHandler "(string \<times> Row list) list"

fun GetHanlderType :: "DataHandler \<Rightarrow> HandlerType" where
  "GetHanlderType (Table t) = kTableHandler"
| "GetHanlderType (RowHandler r) = kRowHandler"
| "GetHanlderType (PartitionHandler ps) = kPartitionHandler"

fun cast_TableHandler :: "DataHandler \<Rightarrow> TableHandler option" where
  "cast_TableHandler (Table t) = Some t"
| "cast_TableHandler output = None"

fun cast_RowHandler :: "DataHandler \<Rightarrow> Row option" where
  "cast_RowHandler (RowHandler r) = Some r"
| "cast_RowHandler output = None"

text \<open>
  Modelled from the spec: \<open>MemTableHandler\<close> (declared in \<open>vm/mem_catalog.h\<close>) is the
  "freshly materialized in-memory table": it starts empty, \<open>AddRow\<close> appends, and its
  iterator runs over the rows added so far.
\<close>

datatype MemTableHandler = MemTableHandler (mem_table: "Row list")

definition MemTableHandler_new :: MemTableHandler where
  "MemTableHandler_new = MemTableHandler []"

definition AddRow :: "MemTableHandler \<Rightarrow> Row \<Rightarrow> MemTableHandler" where
  "AddRow t r = MemTableHandler (mem_table t @ [r])"

definition as_TableHandler :: "MemTableHandler \<Rightarrow> TableHandler" where
  "as_TableHandler t = TableHandler (Some (RowIterator (mem_table t) 0))"

subsection \<open>Runner, SQL context and compiled artifact\<close>

text \<open>
  \<open>RunnerContext ctx(in_row, is_debug)\<close> in request mode, \<open>ctx(is_debug)\<close> in batch mode.
\<close>

record RunnerContext =
  request :: "Row option"
  ctx_is_debug :: bool

text \<open>
  Modelled from the spec: "Runner: \<open>RunWithCache(executionContext) \<rightarrow> OutputHandler\<close>".
  The result is a shared pointer, so it may be null (\<open>None\<close>). Caching inside the
  runner is beneath this layer and is not modelled.
\<close>

datatype Runner = Runner (RunWithCache: "RunnerContext \<Rightarrow> DataHandler option")

text \<open>
  Modelled from the spec: \<open>SQLContext\<close> and \<open>CompileInfo\<close> are declared outside
  \<open>engine.cc\<close>. A \<open>CompileInfo\<close> holds a SQL context: "input SQL, database, execution
  mode, and compiler outputs: logical plan, physical plan, generated-code handle,
  schemas, and a runner tree". The fields are the members that \<open>engine.cc\<close> touches;
  \<open>ctx_sql\<close> and \<open>ctx_db\<close> are the members \<open>sql\<close> and \<open>db\<close>, and \<open>sql_ctx\<close> is what
  \<open>get_sql_context()\<close> refers to.
\<close>

record SQLContext =
  ctx_sql :: string
  ctx_db :: string
  is_batch_mode :: bool
  logical_plan :: string
  physical_plan :: string
  ir :: string
  schema :: Schema
  request_schema :: Schema
  runner :: "Runner option"

text \<open>A default-constructed context; every field the source reads is assigned first.\<close>

definition SQLContext_new :: SQLContext where
  "SQLContext_new = \<lparr>ctx_sql = [], ctx_db = [], is_batch_mode = False, logical_plan = [],
     physical_plan = [], ir = [], schema = [], request_schema = [], runner = None\<rparr>"

record CompileInfo =
  sql_ctx :: SQLContext

definition CompileInfo_new :: CompileInfo where
  "CompileInfo_new = \<lparr>sql_ctx = SQLContext_new\<rparr>"

subsection \<open>The compiler, an external collaborator\<close>

text \<open>
  \<open>SQLCompiler\<close> is constructed from the catalog pointer and the flags given at the
  call site (three flags in \<open>Get\<close>, two in \<open>Explain\<close>). Its two methods are outside
  \<open>engine.cc\<close>, so they are parameters of the model: each takes the context and the
  status by reference and returns its boolean result with both as it left them.
  The parameters cannot see the engine, so the compiler shares no state with the
  caches, and they are functions, so the compiler's answer depends only on its
  arguments. \<open>compiler_call\<close> names one call, for the history kept in the world.
\<close>

datatype SQLCompiler = SQLCompiler (compiler_cl: shared_ptr) (flags: "bool list")

record Compiler_ops =
  Compile :: "SQLCompiler \<Rightarrow> SQLContext \<Rightarrow> Status \<Rightarrow> bool \<times> SQLContext \<times> Status"
  BuildRunner :: "SQLCompiler \<Rightarrow> SQLContext \<Rightarrow> Status \<Rightarrow> bool \<times> SQLContext \<times> Status"

datatype compiler_call =
    Compile_call SQLCompiler SQLContext
  | BuildRunner_call SQLCompiler SQLContext

subsection \<open>Engine state\<close>

text \<open>
  Modelled from the spec: \<open>EngineOptions\<close> is declared outside \<open>engine.cc\<close>; the engine's
  "standing options (keep-intermediate-representation, plan-only, compile-only)", read
  through the three getters.
\<close>

record EngineOptions =
  keep_ir :: bool
  compile_only :: bool
  plan_only :: bool

definition is_keep_ir :: "EngineOptions \<Rightarrow> bool" where
  "is_keep_ir opts = keep_ir opts"

definition is_compile_only :: "EngineOptions \<Rightarrow> bool" where
  "is_compile_only opts = compile_only opts"

definition is_plan_only :: "EngineOptions \<Rightarrow> bool" where
  "is_plan_only opts = plan_only opts"

text \<open>
  \<open>EngineCache\<close> is \<open>std::map<std::string, std::map<std::string,
  std::shared_ptr<CompileInfo>>>\<close>: database name, then SQL text. The members of
  \<open>Engine\<close> are those its constructors initialise; the lock \<open>mu\<close> has no field.
\<close>

type_synonym SqlMap = "string \<rightharpoonup> shared_ptr"

type_synonym EngineCache = "string \<rightharpoonup> SqlMap"

record Engine =
  cl :: shared_ptr
  options :: EngineOptions
  batch_cache :: EngineCache
  request_cache :: EngineCache

text \<open>
  The heap maps an address to the \<open>CompileInfo\<close> stored there; \<open>next_addr\<close> is the
  next address \<open>new\<close> hands out. Objects are never removed from the heap: one whose
  last pointer is dropped stays behind unreferenced. \<open>compiler_calls\<close> records every
  call of \<open>Compile\<close> and \<open>BuildRunner\<close> in order; no definition reads it.
\<close>

record World =
  engine :: Engine
  heap :: "nat \<rightharpoonup> CompileInfo"
  next_addr :: nat
  compiler_calls :: "compiler_call list"

text \<open>
  Both constructors start with empty caches; the one-argument constructor is the
  two-argument one at default-constructed options.
\<close>

definition Engine_new :: "shared_ptr \<Rightarrow> EngineOptions \<Rightarrow> Engine" where
  "Engine_new catalog opts =
     \<lparr>cl = catalog, options = opts, batch_cache = Map.empty, request_cache = Map.empty\<rparr>"

definition World_new :: "shared_ptr \<Rightarrow> EngineOptions \<Rightarrow> World" where
  "World_new catalog opts =
     \<lparr>engine = Engine_new catalog opts, heap = Map.empty, next_addr = 0, compiler_calls = []\<rparr>"

subsection \<open>Run sessions\<close>

text \<open>
  Modelled from the spec: the session classes are declared outside \<open>engine.cc\<close>. A run
  session "holds a reference to one CompileInfo and a debug flag", in "two concrete
  forms, Request and Batch"; \<open>batch_run\<close> says which form the object is, which is what
  \<open>IsBatchRun\<close> reports. Member names are written without the trailing underscore of
  the source (\<open>compile_info\<close> is \<open>compile_info_\<close>, \<open>batch_cache\<close> is \<open>batch_cache_\<close>, and so
  on; \<open>session_is_debug\<close> is \<open>is_debug_\<close>).
\<close>

record RunSession =
  compile_info :: shared_ptr
  session_is_debug :: bool
  batch_run :: bool

definition RunSession_new :: "bool \<Rightarrow> RunSession" where
  "RunSession_new b = \<lparr>compile_info = Null, session_is_debug = False, batch_run = b\<rparr>"

definition IsBatchRun :: "RunSession \<Rightarrow> bool" where
  "IsBatchRun session = batch_run session"

definition SetCompileInfo :: "RunSession \<Rightarrow> shared_ptr \<Rightarrow> RunSession" where
  "SetCompileInfo session info = session\<lparr>compile_info := info\<rparr>"

subsection \<open>\<open>Engine::GetCacheLocked\<close> and \<open>Engine::ClearCacheLocked\<close>\<close>

definition find_in_cache :: "EngineCache \<Rightarrow> string \<Rightarrow> string \<Rightarrow> shared_ptr" where
  "find_in_cache cache db sql =
     (case cache db of
        None \<Rightarrow> Null
      | Some sql_in_db \<Rightarrow> (case sql_in_db sql of None \<Rightarrow> Null | Some info \<Rightarrow> info))"

definition GetCacheLocked :: "string \<Rightarrow> string \<Rightarrow> bool \<Rightarrow> World \<Rightarrow> shared_ptr" where
  "GetCacheLocked db sql is_batch w =
     (if is_batch then find_in_cache (batch_cache (engine w)) db sql
      else find_in_cache (request_cache (engine w)) db sql)"

definition ClearCacheLocked :: "string \<Rightarrow> World \<Rightarrow> World" where
  "ClearCacheLocked db w =
     w\<lparr>engine := (engine w)\<lparr>batch_cache := (batch_cache (engine w))(db := None),
                            request_cache := (request_cache (engine w))(db := None)\<rparr>\<rparr>"

subsection \<open>\<open>Engine::Get\<close>\<close>

text \<open>
  Lines 94 to 122, the block under the lock. \<open>cache[db]\<close> creates an empty inner map
  when \<open>db\<close> is absent; \<open>insert\<close> happens only when \<open>find\<close> reached the end.
\<close>

definition insert_if_absent ::
  "EngineCache \<Rightarrow> string \<Rightarrow> string \<Rightarrow> shared_ptr \<Rightarrow> shared_ptr \<times> EngineCache" where
  "insert_if_absent cache db sql info =
     (let sql_in_db = (case cache db of None \<Rightarrow> Map.empty | Some m \<Rightarrow> m) in
      case sql_in_db sql of
        None \<Rightarrow> (info, cache(db \<mapsto> sql_in_db(sql \<mapsto> info)))
      | Some found \<Rightarrow> (found, cache(db \<mapsto> sql_in_db)))"

definition Get_insert ::
  "string \<Rightarrow> string \<Rightarrow> RunSession \<Rightarrow> shared_ptr \<Rightarrow> World \<Rightarrow> RunSession \<times> World" where
  "Get_insert sql db session info w =
     (if IsBatchRun session then
        (case insert_if_absent (batch_cache (engine w)) db sql info of
           (bound, cache) \<Rightarrow>
             (SetCompileInfo session bound, w\<lparr>engine := (engine w)\<lparr>batch_cache := cache\<rparr>\<rparr>))
      else
        (case insert_if_absent (request_cache (engine w)) db sql info of
           (bound, cache) \<Rightarrow>
             (SetCompileInfo session bound, w\<lparr>engine := (engine w)\<lparr>request_cache := cache\<rparr>\<rparr>)))"

text \<open>The compiler that \<open>Get\<close> constructs, and the context it hands to \<open>Compile\<close>.\<close>

definition Get_compiler :: "World \<Rightarrow> SQLCompiler" where
  "Get_compiler w =
     SQLCompiler (cl (engine w))
       [is_keep_ir (options (engine w)), False, is_plan_only (options (engine w))]"

definition Get_context :: "string \<Rightarrow> string \<Rightarrow> bool \<Rightarrow> SQLContext" where
  "Get_context sql db is_batch =
     (sql_ctx CompileInfo_new)\<lparr>ctx_sql := sql, ctx_db := db, is_batch_mode := is_batch\<rparr>"

text \<open>
  Lines 75 to 93, run without the lock: allocate the \<open>CompileInfo\<close>, compile, and
  unless compile-only build the runner. The result is the new pointer when both
  succeeded and \<open>None\<close> on either early \<open>return false\<close>.
\<close>

definition Get_compile ::
  "Compiler_ops \<Rightarrow> string \<Rightarrow> string \<Rightarrow> bool \<Rightarrow> Status \<Rightarrow> World
     \<Rightarrow> shared_ptr option \<times> Status \<times> World" where
  "Get_compile ops sql db is_batch status w =
     (let a = next_addr w;
          compiler = Get_compiler w;
          ctx = Get_context sql db is_batch
      in case Compile ops compiler ctx status of
        (ok, ctx1, status1) \<Rightarrow>
          (let w1 = w\<lparr>heap := (heap w)(a \<mapsto> \<lparr>sql_ctx = ctx1\<rparr>), next_addr := Suc a,
                       compiler_calls := compiler_calls w @ [Compile_call compiler ctx]\<rparr>
           in if \<not> ok \<or> 0 \<noteq> code status1 then (None, status1, w1)
              else if \<not> is_compile_only (options (engine w)) then
                (case BuildRunner ops compiler ctx1 status1 of
                   (ok2, ctx2, status2) \<Rightarrow>
                     (let w2 = w1\<lparr>heap := (heap w1)(a \<mapsto> \<lparr>sql_ctx = ctx2\<rparr>),
                                   compiler_calls :=
                                     compiler_calls w1 @ [BuildRunner_call compiler ctx1]\<rparr>
                      in if \<not> ok2 \<or> 0 \<noteq> code status2 then (None, status2, w2)
                         else (Some (Ptr a), status2, w2)))
              else (Some (Ptr a), status1, w1)))"

text \<open>
  \<open>Get\<close> run by one thread with no other thread in between: the lookup under the
  lock, the compilation, the insertion under the lock.
\<close>

definition Get ::
  "Compiler_ops \<Rightarrow> string \<Rightarrow> string \<Rightarrow> RunSession \<Rightarrow> Status \<Rightarrow> World
     \<Rightarrow> bool \<times> RunSession \<times> Status \<times> World" where
  "Get ops sql db session status w =
     (let info = GetCacheLocked db sql (IsBatchRun session) w in
      if info \<noteq> Null then (True, SetCompileInfo session info, status, w)
      else
        (case Get_compile ops sql db (IsBatchRun session) status w of
           (None, status1, w1) \<Rightarrow> (False, session, status1, w1)
         | (Some info1, status1, w1) \<Rightarrow>
             (case Get_insert sql db session info1 w1 of
                (session1, w2) \<Rightarrow> (True, session1, status1, w2))))"

subsection \<open>\<open>Engine::Explain\<close>\<close>

text \<open>
  Modelled from the spec: \<open>ExplainOutput\<close> is declared outside \<open>engine.cc\<close>; a "diagnostic
  snapshot (input schema, output schema, logical plan text, physical plan text,
  generated-code text)". The last three fields are its members \<open>logical_plan\<close>,
  \<open>physical_plan\<close> and \<open>ir\<close>.
\<close>

record ExplainOutput =
  input_schema :: Schema
  output_schema :: Schema
  eo_logical_plan :: string
  eo_physical_plan :: string
  eo_ir :: string

definition Explain_compiler :: "World \<Rightarrow> SQLCompiler" where
  "Explain_compiler w = SQLCompiler (cl (engine w)) [True, True]"

definition Explain_context :: "string \<Rightarrow> string \<Rightarrow> bool \<Rightarrow> SQLContext" where
  "Explain_context sql db is_batch =
     SQLContext_new\<lparr>is_batch_mode := is_batch, ctx_sql := sql, ctx_db := db\<rparr>"

text \<open>
  The two output arguments are pointers: \<open>None\<close> is \<open>NULL\<close>, \<open>Some\<close> is the object
  pointed to, returned as the call leaves it.
\<close>

definition Explain ::
  "Compiler_ops \<Rightarrow> string \<Rightarrow> string \<Rightarrow> bool \<Rightarrow> ExplainOutput option \<Rightarrow> Status option \<Rightarrow> World
     \<Rightarrow> bool \<times> ExplainOutput option \<times> Status option \<times> World" where
  "Explain ops sql db is_batch explain_output status w =
     (case (explain_output, status) of
        (Some eo, Some st) \<Rightarrow>
          (let ctx = Explain_context sql db is_batch;
               compiler = Explain_compiler w
           in case Compile ops compiler ctx st of
             (ok, ctx1, st1) \<Rightarrow>
               (let w1 = w\<lparr>compiler_calls := compiler_calls w @ [Compile_call compiler ctx]\<rparr>
                in if \<not> ok \<or> 0 \<noteq> code st1 then (False, Some eo, Some st1, w1)
                   else (True,
                         Some (eo\<lparr>input_schema := request_schema ctx1,
                                   output_schema := schema ctx1,
                                   eo_logical_plan := logical_plan ctx1,
                                   eo_physical_plan := physical_plan ctx1,
                                   eo_ir := ir ctx1\<rparr>),
                         Some st1, w1)))
      | _ \<Rightarrow> (False, explain_output, status, w))"

subsection \<open>\<open>RequestRunSession::Run\<close> and \<open>BatchRunSession::Run\<close>\<close>

text \<open>
  \<open>compile_info->get_sql_context().runner->RunWithCache(ctx)\<close> dereferences the
  session's pointer and the context's runner pointer, and the result of a downcast is
  dereferenced unchecked. Dereferencing a null or dangling pointer has no defined
  result; it is the fault value of the model. In the no-argument batch \<open>Run\<close> the
  cast table pointer is returned, not dereferenced.
\<close>

datatype fault = NullDereference

definition run_runner :: "World \<Rightarrow> RunSession \<Rightarrow> RunnerContext \<Rightarrow> fault + DataHandler option" where
  "run_runner w session ctx =
     (case compile_info session of
        Null \<Rightarrow> Inl NullDereference
      | Ptr a \<Rightarrow>
          (case heap w a of
             None \<Rightarrow> Inl NullDereference
           | Some info \<Rightarrow>
               (case runner (sql_ctx info) of
                  None \<Rightarrow> Inl NullDereference
                | Some r \<Rightarrow> Inr (RunWithCache r ctx))))"

text \<open>
  The result is the \<open>int32_t\<close> return value and the row behind \<open>out_row\<close> after the call.
\<close>

definition RequestRunSession_Run ::
  "World \<Rightarrow> RunSession \<Rightarrow> Row \<Rightarrow> Row \<Rightarrow> fault + (32 word \<times> Row)" where
  "RequestRunSession_Run w session in_row out_row =
     (case run_runner w session \<lparr>request = Some in_row, ctx_is_debug = session_is_debug session\<rparr> of
        Inl f \<Rightarrow> Inl f
      | Inr None \<Rightarrow> Inr (- 1, out_row)
      | Inr (Some output) \<Rightarrow>
          (case GetHanlderType output of
             kTableHandler \<Rightarrow>
               (case cast_TableHandler output of
                  None \<Rightarrow> Inl NullDereference
                | Some t \<Rightarrow>
                    (case GetIterator t of
                       None \<Rightarrow> Inr (0, out_row)
                     | Some iter0 \<Rightarrow>
                         (let iter = SeekToFirst iter0 in
                          if Valid iter then Inr (0, GetValue iter) else Inr (0, out_row))))
           | kRowHandler \<Rightarrow>
               (case cast_RowHandler output of
                  None \<Rightarrow> Inl NullDereference
                | Some r \<Rightarrow> Inr (0, r))
           | kPartitionHandler \<Rightarrow> Inr (- 1, out_row)))"

text \<open>The no-argument \<open>Run\<close>: \<open>None\<close> is the null table pointer.\<close>

definition BatchRunSession_Run ::
  "World \<Rightarrow> RunSession \<Rightarrow> fault + TableHandler option" where
  "BatchRunSession_Run w session =
     (case run_runner w session \<lparr>request = None, ctx_is_debug = session_is_debug session\<rparr> of
        Inl f \<Rightarrow> Inl f
      | Inr None \<Rightarrow> Inr None
      | Inr (Some output) \<Rightarrow>
          (case GetHanlderType output of
             kTableHandler \<Rightarrow>
               (case cast_TableHandler output of
                  None \<Rightarrow> Inr None
                | Some t \<Rightarrow> Inr (Some t))
           | kRowHandler \<Rightarrow>
               (case cast_RowHandler output of
                  None \<Rightarrow> Inl NullDereference
                | Some r \<Rightarrow> Inr (Some (as_TableHandler (AddRow MemTableHandler_new r))))
           | kPartitionHandler \<Rightarrow> Inr None))"

text \<open>The loop of lines 270 to 273.\<close>

function Run_loop :: "RowIterator \<Rightarrow> Row list \<Rightarrow> Row list" where
  "Run_loop iter rows =
     (if Valid iter then Run_loop (Next iter) (rows @ [GetValue iter]) else rows)"
  by pat_completeness auto
termination
  by (relation "measure (\<lambda>(iter, rows). length (it_rows iter) - it_pos iter)")
     (auto simp: Valid_def Next_def)

declare Run_loop.simps [simp del]

text \<open>
  The vector-collecting \<open>Run\<close>: the result is the return value and the vector after
  the call. The body never mentions \<open>limit\<close>.
\<close>

definition BatchRunSession_Run_rows ::
  "World \<Rightarrow> RunSession \<Rightarrow> Row list \<Rightarrow> 64 word \<Rightarrow> fault + (32 word \<times> Row list)" where
  "BatchRunSession_Run_rows w session rows limit =
     (case run_runner w session \<lparr>request = None, ctx_is_debug = session_is_debug session\<rparr> of
        Inl f \<Rightarrow> Inl f
      | Inr None \<Rightarrow> Inr (- 1, rows)
      | Inr (Some output) \<Rightarrow>
          (case GetHanlderType output of
             kTableHandler \<Rightarrow>
               (case cast_TableHandler output of
                  None \<Rightarrow> Inl NullDereference
                | Some t \<Rightarrow>
                    (case GetIterator t of
                       None \<Rightarrow> Inr (0, rows)
                     | Some iter0 \<Rightarrow> Inr (0, Run_loop (SeekToFirst iter0) rows)))
           | kRowHandler \<Rightarrow>
               (case cast_RowHandler output of
                  None \<Rightarrow> Inl NullDereference
                | Some r \<Rightarrow> Inr (0, rows @ [r]))
           | kPartitionHandler \<Rightarrow> Inr (- 1, rows)))"

subsection \<open>Vocabulary for the properties\<close>

text \<open>
  The entry stored at a key: \<open>lookup_entry\<close> in one cache, \<open>cache_entry\<close> in the cache
  that the mode selects. \<open>None\<close> means that the key is absent.
\<close>

definition lookup_entry :: "EngineCache \<Rightarrow> string \<Rightarrow> string \<Rightarrow> shared_ptr option" where
  "lookup_entry cache d s = (case cache d of None \<Rightarrow> None | Some m \<Rightarrow> m s)"

definition mode_cache :: "World \<Rightarrow> bool \<Rightarrow> EngineCache" where
  "mode_cache w is_batch = (if is_batch then batch_cache (engine w) else request_cache (engine w))"

definition cache_entry :: "World \<Rightarrow> bool \<Rightarrow> string \<Rightarrow> string \<Rightarrow> shared_ptr option" where
  "cache_entry w is_batch d s = lookup_entry (mode_cache w is_batch) d s"

text \<open>
  The invariant of the caches: every stored pointer is the address of an allocated
  object, so none is null, and no object is stored under two keys. The constructor
  establishes it and every operation of the engine keeps it (proved below).
\<close>

definition cache_inv :: "World \<Rightarrow> bool" where
  "cache_inv w =
     ((\<forall>b d s p. cache_entry w b d s = Some p \<longrightarrow>
         (\<exists>a. p = Ptr a \<and> a < next_addr w \<and> heap w a \<noteq> None)) \<and>
      (\<forall>b d s b' d' s' p. cache_entry w b d s = Some p \<and> cache_entry w b' d' s' = Some p \<longrightarrow>
         b = b' \<and> d = d' \<and> s = s'))"

text \<open>
  The worlds that a single thread can produce from a new engine by calling the
  engine's operations with any arguments.
\<close>

inductive reachable :: "Compiler_ops \<Rightarrow> World \<Rightarrow> bool" for ops :: Compiler_ops where
  reachable_new: "reachable ops (World_new c opts)"
| reachable_Get:
    "reachable ops w \<Longrightarrow> Get ops s d session status w = (ok, session1, status1, w1)
       \<Longrightarrow> reachable ops w1"
| reachable_Explain:
    "reachable ops w \<Longrightarrow> Explain ops s d b eo st w = (ok, eo1, st1, w1)
       \<Longrightarrow> reachable ops w1"
| reachable_ClearCacheLocked:
    "reachable ops w \<Longrightarrow> reachable ops (ClearCacheLocked d w)"

text \<open>A world with one of its caches replaced.\<close>

definition set_batch_cache :: "EngineCache \<Rightarrow> World \<Rightarrow> World" where
  "set_batch_cache c w = w\<lparr>engine := (engine w)\<lparr>batch_cache := c\<rparr>\<rparr>"

definition set_request_cache :: "EngineCache \<Rightarrow> World \<Rightarrow> World" where
  "set_request_cache c w = w\<lparr>engine := (engine w)\<lparr>request_cache := c\<rparr>\<rparr>"

subsection \<open>Concrete inputs\<close>

text \<open>
  A runner that returns a fixed output, a world whose heap holds one compiled artifact
  with that runner at address 0, and a session bound to it.
\<close>

definition constant_runner :: "DataHandler option \<Rightarrow> Runner" where
  "constant_runner out = Runner (\<lambda>ctx. out)"

definition bound_info :: "DataHandler option \<Rightarrow> CompileInfo" where
  "bound_info out = \<lparr>sql_ctx = SQLContext_new\<lparr>runner := Some (constant_runner out)\<rparr>\<rparr>"

definition bound_world :: "DataHandler option \<Rightarrow> World" where
  "bound_world out =
     \<lparr>engine = Engine_new Null \<lparr>keep_ir = False, compile_only = False, plan_only = False\<rparr>,
      heap = [0 \<mapsto> bound_info out], next_addr = 1, compiler_calls = []\<rparr>"

definition bound_session :: "bool \<Rightarrow> RunSession" where
  "bound_session b = SetCompileInfo (RunSession_new b) (Ptr 0)"

definition three_row_table :: DataHandler where
  "three_row_table = Table (TableHandler (Some (RowIterator [''r1'', ''r2'', ''r3''] 0)))"

text \<open>
  A compiler for the examples: \<open>Compile\<close> rejects the empty statement with code 1 and
  otherwise records a plan; \<open>BuildRunner\<close> rejects an empty database name with code 2
  and otherwise installs a runner that returns the SQL text as a single row.
\<close>

definition example_ops :: Compiler_ops where
  "example_ops =
     \<lparr>Compile = (\<lambda>compiler ctx status.
         if ctx_sql ctx = [] then (False, ctx, \<lparr>code = 1, msg = ''empty statement''\<rparr>)
         else (True, ctx\<lparr>physical_plan := ctx_sql ctx\<rparr>, status\<lparr>code := 0\<rparr>)),
      BuildRunner = (\<lambda>compiler ctx status.
         if ctx_db ctx = [] then (False, ctx, \<lparr>code = 2, msg = ''no database''\<rparr>)
         else (True,
               ctx\<lparr>runner := Some (constant_runner (Some (RowHandler (ctx_sql ctx))))\<rparr>,
               status))\<rparr>"

definition ok_status :: Status where
  "ok_status = \<lparr>code = 0, msg = []\<rparr>"

definition no_options :: EngineOptions where
  "no_options = \<lparr>keep_ir = False, compile_only = False, plan_only = False\<rparr>"

text \<open>A new engine, and the world after one batch \<open>Get\<close> of \<open>select 1\<close> in \<open>db1\<close>.\<close>

definition world0 :: World where
  "world0 = World_new (Ptr 100) no_options"

definition world1 :: World where
  "world1 = snd (snd (snd (Get example_ops ''select 1'' ''db1'' (RunSession_new True) ok_status world0)))"

text \<open>The world after a request \<open>Get\<close> of the same statement in \<open>world1\<close>.\<close>

definition world2 :: World where
  "world2 = snd (snd (snd (Get example_ops ''select 1'' ''db1'' (RunSession_new False) ok_status world1)))"


definition empty_output :: ExplainOutput where
  "empty_output = \<lparr>input_schema = [], output_schema = [], eo_logical_plan = [],
     eo_physical_plan = [], eo_ir = []\<rparr>"

section \<open>Run sessions: output normalisation\<close>

lemma Run_loop_drop: "Run_loop iter rows = rows @ drop (it_pos iter) (it_rows iter)"
proof (induction iter rows rule: Run_loop.induct)
  case (1 iter rows)
  show ?case
  proof (cases "Valid iter")
    case True
    then have "drop (it_pos iter) (it_rows iter)
                 = GetValue iter # drop (Suc (it_pos iter)) (it_rows iter)"
      by (simp add: Valid_def GetValue_def Cons_nth_drop_Suc)
    with True "1.IH" show ?thesis
      by (subst Run_loop.simps) (simp add: Next_def)
  next
    case False
    then show ?thesis
      by (subst Run_loop.simps) (simp add: Valid_def)
  qed
qed

lemma run_runner_bound:
  "compile_info session = Ptr a \<Longrightarrow> heap w a = Some info \<Longrightarrow> runner (sql_ctx info) = Some rn
     \<Longrightarrow> run_runner w session ctx = Inr (RunWithCache rn ctx)"
  by (simp add: run_runner_def)

lemma bound_session_ptr: "compile_info (bound_session b) = Ptr 0"
  by (simp add: bound_session_def SetCompileInfo_def RunSession_new_def)

lemma bound_world_heap: "heap (bound_world out) 0 = Some (bound_info out)"
  by (simp add: bound_world_def)

lemma bound_info_runner: "runner (sql_ctx (bound_info out)) = Some (constant_runner out)"
  by (simp add: bound_info_def)

lemma constant_runner_out: "RunWithCache (constant_runner out) ctx = out"
  by (simp add: constant_runner_def)

text \<open>
  C6. When the runner's output is a row handler holding \<open>R\<close>, the no-argument batch
  \<open>Run\<close> returns a table handler whose iterator, positioned at the first element, is
  valid with value \<open>R\<close> and is exhausted after one \<open>Next\<close>; the request \<open>Run\<close> returns 0
  with \<open>R\<close> in the output row.
\<close>

theorem row_handler_output_normalised:
  assumes "compile_info session = Ptr a" and "heap w a = Some info"
    and "runner (sql_ctx info) = Some rn"
  shows "(RunWithCache rn \<lparr>request = None, ctx_is_debug = session_is_debug session\<rparr>
            = Some (RowHandler R) \<longrightarrow>
          (\<exists>t iter. BatchRunSession_Run w session = Inr (Some t) \<and> GetIterator t = Some iter
             \<and> Valid (SeekToFirst iter) \<and> GetValue (SeekToFirst iter) = R
             \<and> \<not> Valid (Next (SeekToFirst iter)))) \<and>
         (RunWithCache rn \<lparr>request = Some in_row, ctx_is_debug = session_is_debug session\<rparr>
            = Some (RowHandler R) \<longrightarrow>
          RequestRunSession_Run w session in_row out_row = Inr (0, R))"
  using assms
  by (simp add: BatchRunSession_Run_def RequestRunSession_Run_def run_runner_bound
      as_TableHandler_def AddRow_def MemTableHandler_new_def SeekToFirst_def Valid_def
      GetValue_def Next_def)

theorem row_handler_output_normalised_witness:
  "BatchRunSession_Run (bound_world (Some (RowHandler ''r1''))) (bound_session True)
     = Inr (Some (TableHandler (Some (RowIterator [''r1''] 0)))) \<and>
   RequestRunSession_Run (bound_world (Some (RowHandler ''r1''))) (bound_session False)
     ''in'' ''out'' = Inr (0, ''r1'')"
proof -
  have "RequestRunSession_Run (bound_world (Some (RowHandler ''r1''))) (bound_session False)
          ''in'' ''out'' = Inr (0, ''r1'')"
    using row_handler_output_normalised
      [of "bound_session False" 0 "bound_world (Some (RowHandler ''r1''))"
          "bound_info (Some (RowHandler ''r1''))" "constant_runner (Some (RowHandler ''r1''))"
          "''r1''" "''in''" "''out''",
        OF bound_session_ptr bound_world_heap bound_info_runner]
    by (simp add: constant_runner_out)
  moreover have "BatchRunSession_Run (bound_world (Some (RowHandler ''r1''))) (bound_session True)
          = Inr (Some (TableHandler (Some (RowIterator [''r1''] 0))))"
    by (simp add: BatchRunSession_Run_def
        run_runner_bound [OF bound_session_ptr bound_world_heap bound_info_runner]
        constant_runner_out as_TableHandler_def AddRow_def MemTableHandler_new_def)
  ultimately show ?thesis by simp
qed

text \<open>
  C7. When the runner's output is a partition handler, the request \<open>Run\<close> returns -1
  and the output row keeps its value, the vector-collecting batch \<open>Run\<close> returns -1 and
  the vector keeps its contents, and the no-argument batch \<open>Run\<close> returns the null
  table pointer.
\<close>

theorem partition_handler_rejected:
  assumes "compile_info session = Ptr a" and "heap w a = Some info"
    and "runner (sql_ctx info) = Some rn"
  shows "(RunWithCache rn \<lparr>request = Some in_row, ctx_is_debug = session_is_debug session\<rparr>
            = Some (PartitionHandler ps) \<longrightarrow>
          RequestRunSession_Run w session in_row out_row = Inr (- 1, out_row)) \<and>
         (RunWithCache rn \<lparr>request = None, ctx_is_debug = session_is_debug session\<rparr>
            = Some (PartitionHandler ps) \<longrightarrow>
          BatchRunSession_Run_rows w session rows limit = Inr (- 1, rows) \<and>
          BatchRunSession_Run w session = Inr None)"
  using assms
  by (simp add: BatchRunSession_Run_def RequestRunSession_Run_def BatchRunSession_Run_rows_def
      run_runner_bound)

theorem partition_handler_rejected_witness:
  "RequestRunSession_Run (bound_world (Some (PartitionHandler [(''k'', [''r1''])])))
     (bound_session False) ''in'' ''out'' = Inr (- 1, ''out'') \<and>
   BatchRunSession_Run_rows (bound_world (Some (PartitionHandler [(''k'', [''r1''])])))
     (bound_session True) [''old''] 10 = Inr (- 1, [''old'']) \<and>
   BatchRunSession_Run (bound_world (Some (PartitionHandler [(''k'', [''r1''])])))
     (bound_session True) = Inr None"
  using partition_handler_rejected
      [of "bound_session False" 0 "bound_world (Some (PartitionHandler [(''k'', [''r1''])]))"
          "bound_info (Some (PartitionHandler [(''k'', [''r1''])]))"
          "constant_runner (Some (PartitionHandler [(''k'', [''r1''])]))"
          "''in''" "[(''k'', [''r1''])]" "''out''" "[''old'']" 10,
        OF bound_session_ptr bound_world_heap bound_info_runner]
    partition_handler_rejected
      [of "bound_session True" 0 "bound_world (Some (PartitionHandler [(''k'', [''r1''])]))"
          "bound_info (Some (PartitionHandler [(''k'', [''r1''])]))"
          "constant_runner (Some (PartitionHandler [(''k'', [''r1''])]))"
          "''in''" "[(''k'', [''r1''])]" "''out''" "[''old'']" 10,
        OF bound_session_ptr bound_world_heap bound_info_runner]
  by (simp add: constant_runner_out)

text \<open>
  C10. The vector-collecting batch \<open>Run\<close> appends: whatever it returns, the vector
  afterwards is the vector before followed by exactly the rows that the same run
  collects into an empty vector.
\<close>

theorem Run_rows_appends:
  assumes "BatchRunSession_Run_rows w session rows limit = Inr (ret, rows')"
  shows "\<exists>collected. BatchRunSession_Run_rows w session [] limit = Inr (ret, collected)
           \<and> rows' = rows @ collected"
  using assms
  by (auto simp: BatchRunSession_Run_rows_def Run_loop_drop
      split: sum.splits option.splits HandlerType.splits)

lemma three_row_run:
  "BatchRunSession_Run_rows (bound_world (Some three_row_table)) (bound_session True) rows limit
     = Inr (0, rows @ [''r1'', ''r2'', ''r3''])"
  by (simp add: BatchRunSession_Run_rows_def
      run_runner_bound [OF bound_session_ptr bound_world_heap bound_info_runner]
      constant_runner_out three_row_table_def Run_loop_drop SeekToFirst_def)

theorem Run_rows_appends_witness:
  "BatchRunSession_Run_rows (bound_world (Some three_row_table)) (bound_session True)
     [''old''] 10 = Inr (0, [''old'', ''r1'', ''r2'', ''r3'']) \<and>
   BatchRunSession_Run_rows (bound_world (Some three_row_table)) (bound_session True)
     [] 10 = Inr (0, [''r1'', ''r2'', ''r3''])"
proof -
  have run: "BatchRunSession_Run_rows (bound_world (Some three_row_table)) (bound_session True)
     [''old''] 10 = Inr (0, [''old'', ''r1'', ''r2'', ''r3''])"
    by (simp add: three_row_run)
  from Run_rows_appends [OF run] obtain collected where
    "BatchRunSession_Run_rows (bound_world (Some three_row_table)) (bound_session True) [] 10
       = Inr (0, collected)"
    and "[''old'', ''r1'', ''r2'', ''r3''] = [''old''] @ collected"
    by blast
  then have "BatchRunSession_Run_rows (bound_world (Some three_row_table)) (bound_session True)
     [] 10 = Inr (0, [''r1'', ''r2'', ''r3''])"
    by simp
  with run show ?thesis by simp
qed

lemma Run_rows_limit_irrelevant:
  "BatchRunSession_Run_rows w session rows limit = BatchRunSession_Run_rows w session rows limit'"
  by (simp add: BatchRunSession_Run_rows_def)

text \<open>
  C2. The vector-collecting batch \<open>Run\<close> does not enforce \<open>limit\<close>: on a table handler
  of three rows and \<open>limit = 1\<close> it returns 0 with all three rows collected.
\<close>

theorem Run_rows_limit_not_enforced:
  "BatchRunSession_Run_rows (bound_world (Some three_row_table)) (bound_session True) [] 1
     = Inr (0, [''r1'', ''r2'', ''r3''])"
  by (simp add: BatchRunSession_Run_rows_def
      run_runner_bound [OF bound_session_ptr bound_world_heap bound_info_runner]
      constant_runner_out three_row_table_def Run_loop_drop SeekToFirst_def)

section \<open>The compile cache\<close>

subsection \<open>Lookup and insertion\<close>

lemma find_in_cache_lookup:
  "find_in_cache cache d s = (case lookup_entry cache d s of None \<Rightarrow> Null | Some p \<Rightarrow> p)"
  by (simp add: find_in_cache_def lookup_entry_def split: option.splits)

lemma GetCacheLocked_entry:
  "GetCacheLocked d s b w = (case cache_entry w b d s of None \<Rightarrow> Null | Some p \<Rightarrow> p)"
  by (simp add: GetCacheLocked_def cache_entry_def mode_cache_def find_in_cache_lookup)

lemma insert_if_absent_present:
  assumes "lookup_entry cache d s = Some p"
  shows "insert_if_absent cache d s info = (p, cache)"
proof -
  from assms obtain m where m: "cache d = Some m" "m s = Some p"
    by (auto simp: lookup_entry_def split: option.splits)
  then have "cache(d \<mapsto> m) = cache"
    by (simp add: map_upd_triv)
  with m show ?thesis
    by (simp add: insert_if_absent_def)
qed

lemma insert_if_absent_absent:
  assumes "lookup_entry cache d s = None"
  shows "\<exists>cache'. insert_if_absent cache d s info = (info, cache') \<and>
           (\<forall>d' s'. lookup_entry cache' d' s'
                      = (if d' = d \<and> s' = s then Some info else lookup_entry cache d' s'))"
proof (cases "cache d")
  case None
  then show ?thesis
    by (simp add: insert_if_absent_def lookup_entry_def)
next
  case (Some m)
  with assms have "m s = None"
    by (simp add: lookup_entry_def)
  with Some show ?thesis
    by (simp add: insert_if_absent_def lookup_entry_def)
qed

text \<open>What the locked insertion does, by whether the key is already present.\<close>

lemma Get_insert_present:
  assumes "cache_entry w (IsBatchRun session) d s = Some p"
  shows "Get_insert s d session info w = (SetCompileInfo session p, w)"
proof (cases "IsBatchRun session")
  case True
  with assms have "lookup_entry (batch_cache (engine w)) d s = Some p"
    by (simp add: cache_entry_def mode_cache_def)
  then have "insert_if_absent (batch_cache (engine w)) d s info = (p, batch_cache (engine w))"
    by (rule insert_if_absent_present)
  with True show ?thesis
    by (simp add: Get_insert_def)
next
  case False
  with assms have "lookup_entry (request_cache (engine w)) d s = Some p"
    by (simp add: cache_entry_def mode_cache_def)
  then have "insert_if_absent (request_cache (engine w)) d s info = (p, request_cache (engine w))"
    by (rule insert_if_absent_present)
  with False show ?thesis
    by (simp add: Get_insert_def)
qed

lemma Get_insert_absent:
  assumes "cache_entry w (IsBatchRun session) d s = None"
  shows "\<exists>w'. Get_insert s d session info w = (SetCompileInfo session info, w') \<and>
           heap w' = heap w \<and> next_addr w' = next_addr w \<and>
           compiler_calls w' = compiler_calls w \<and>
           cl (engine w') = cl (engine w) \<and> options (engine w') = options (engine w) \<and>
           mode_cache w' (\<not> IsBatchRun session) = mode_cache w (\<not> IsBatchRun session) \<and>
           (\<forall>b d' s'. cache_entry w' b d' s'
               = (if b = IsBatchRun session \<and> d' = d \<and> s' = s then Some info
                  else cache_entry w b d' s'))"
proof (cases "IsBatchRun session")
  case True
  with assms have "lookup_entry (batch_cache (engine w)) d s = None"
    by (simp add: cache_entry_def mode_cache_def)
  from insert_if_absent_absent [OF this, of info] obtain c where
    c: "insert_if_absent (batch_cache (engine w)) d s info = (info, c)"
       "\<And>d' s'. lookup_entry c d' s'
          = (if d' = d \<and> s' = s then Some info else lookup_entry (batch_cache (engine w)) d' s')"
    by blast
  with True show ?thesis
    by (simp add: Get_insert_def cache_entry_def mode_cache_def)
next
  case False
  with assms have "lookup_entry (request_cache (engine w)) d s = None"
    by (simp add: cache_entry_def mode_cache_def)
  from insert_if_absent_absent [OF this, of info] obtain c where
    c: "insert_if_absent (request_cache (engine w)) d s info = (info, c)"
       "\<And>d' s'. lookup_entry c d' s'
          = (if d' = d \<and> s' = s then Some info else lookup_entry (request_cache (engine w)) d' s')"
    by blast
  with False show ?thesis
    by (simp add: Get_insert_def cache_entry_def mode_cache_def)
qed

text \<open>What the unlocked compilation leaves behind.\<close>

lemma Get_compile_frame:
  assumes "Get_compile ops s d b status w = (r, status1, w1)"
  shows "engine w1 = engine w \<and> next_addr w1 = Suc (next_addr w) \<and>
         heap w1 (next_addr w) \<noteq> None \<and> (\<forall>a. a \<noteq> next_addr w \<longrightarrow> heap w1 a = heap w a) \<and>
         (r = None \<or> r = Some (Ptr (next_addr w))) \<and>
         (\<exists>more. compiler_calls w1
            = compiler_calls w @ Compile_call (Get_compiler w) (Get_context s d b) # more)"
  using assms
  by (auto simp: Get_compile_def Let_def split: prod.splits if_splits)

lemma cache_entry_cong:
  "engine w1 = engine w \<Longrightarrow> cache_entry w1 = cache_entry w"
  by (simp add: cache_entry_def mode_cache_def fun_eq_iff)

lemma Get_hit:
  assumes "GetCacheLocked d s (IsBatchRun session) w = p" and "p \<noteq> Null"
  shows "Get ops s d session status w = (True, SetCompileInfo session p, status, w)"
  using assms by (simp add: Get_def)

lemma Get_miss:
  assumes "GetCacheLocked d s (IsBatchRun session) w = Null"
  shows "Get ops s d session status w =
     (case Get_compile ops s d (IsBatchRun session) status w of
        (None, status1, w1) \<Rightarrow> (False, session, status1, w1)
      | (Some info1, status1, w1) \<Rightarrow>
          (case Get_insert s d session info1 w1 of
             (session1, w2) \<Rightarrow> (True, session1, status1, w2)))"
  using assms by (simp add: Get_def)

lemma Get_insert_frame:
  assumes "Get_insert s d session info w = (session1, w1)"
  shows "heap w1 = heap w \<and> next_addr w1 = next_addr w \<and>
         compiler_calls w1 = compiler_calls w \<and>
         cl (engine w1) = cl (engine w) \<and> options (engine w1) = options (engine w) \<and>
         mode_cache w1 (\<not> IsBatchRun session) = mode_cache w (\<not> IsBatchRun session)"
proof (cases "cache_entry w (IsBatchRun session) d s")
  case None
  from Get_insert_absent [OF None, of info] assms show ?thesis
    by auto
next
  case (Some p)
  from Get_insert_present [OF Some, of info] assms show ?thesis
    by simp
qed

lemma Get_miss_compiles:
  assumes "GetCacheLocked d s (IsBatchRun session) w = Null"
  shows "\<exists>ok session1 status1 w1 more.
           Get ops s d session status w = (ok, session1, status1, w1) \<and>
           compiler_calls w1
             = compiler_calls w
                 @ Compile_call (Get_compiler w) (Get_context s d (IsBatchRun session)) # more"
proof -
  obtain r status1 wc where gc: "Get_compile ops s d (IsBatchRun session) status w = (r, status1, wc)"
    by (cases "Get_compile ops s d (IsBatchRun session) status w") auto
  from Get_compile_frame [OF gc] obtain more where
    calls: "compiler_calls wc
       = compiler_calls w
           @ Compile_call (Get_compiler w) (Get_context s d (IsBatchRun session)) # more"
    by blast
  show ?thesis
  proof (cases r)
    case None
    with gc have "Get ops s d session status w = (False, session, status1, wc)"
      by (simp add: Get_miss [OF assms])
    with calls show ?thesis
      by blast
  next
    case (Some info1)
    obtain session1 w2 where gi: "Get_insert s d session info1 wc = (session1, w2)"
      by (cases "Get_insert s d session info1 wc") auto
    from Get_insert_frame [OF gi] have "compiler_calls w2 = compiler_calls wc"
      by simp
    moreover from Some gc gi have "Get ops s d session status w = (True, session1, status1, w2)"
      by (simp add: Get_miss [OF assms])
    ultimately have "compiler_calls w2
        = compiler_calls w
            @ Compile_call (Get_compiler w) (Get_context s d (IsBatchRun session)) # more"
      "Get ops s d session status w = (True, session1, status1, w2)"
      using calls by simp_all
    then show ?thesis
      by blast
  qed
qed

text \<open>After a successful \<open>Get\<close> the key holds the pointer the session was bound to.\<close>

lemma Get_success_cached:
  assumes "Get ops s d session status w = (True, session1, status1, w1)"
  shows "cache_entry w1 (IsBatchRun session) d s = Some (compile_info session1)"
proof (cases "GetCacheLocked d s (IsBatchRun session) w = Null")
  case False
  from Get_hit [OF refl False, of ops status] assms
  have eq: "session1 = SetCompileInfo session (GetCacheLocked d s (IsBatchRun session) w)" "w1 = w"
    by simp_all
  from False have "cache_entry w (IsBatchRun session) d s
      = Some (GetCacheLocked d s (IsBatchRun session) w)"
    by (simp add: GetCacheLocked_entry split: option.splits)
  with eq show ?thesis
    by (simp add: SetCompileInfo_def)
next
  case True
  obtain r st wc where gc: "Get_compile ops s d (IsBatchRun session) status w = (r, st, wc)"
    by (cases "Get_compile ops s d (IsBatchRun session) status w") auto
  with assms True obtain info1 where r: "r = Some info1"
    by (cases r) (simp_all add: Get_miss)
  obtain s2 w2 where gi: "Get_insert s d session info1 wc = (s2, w2)"
    by (cases "Get_insert s d session info1 wc") auto
  from assms True gc r gi have eq: "session1 = s2" "w1 = w2"
    by (simp_all add: Get_miss)
  show ?thesis
  proof (cases "cache_entry wc (IsBatchRun session) d s")
    case None
    from Get_insert_absent [OF None, of info1] gi eq show ?thesis
      by (auto simp: SetCompileInfo_def)
  next
    case (Some p)
    from Get_insert_present [OF Some, of info1] gi eq Some show ?thesis
      by (simp add: SetCompileInfo_def)
  qed
qed

subsection \<open>The invariant is established and kept\<close>

lemma cache_entry_World_new: "cache_entry (World_new c opts) b d s = None"
  by (simp add: cache_entry_def mode_cache_def lookup_entry_def World_new_def Engine_new_def)

lemma cache_inv_World_new: "cache_inv (World_new c opts)"
  by (simp add: cache_inv_def cache_entry_World_new)

lemma cache_entry_ClearCacheLocked:
  "cache_entry (ClearCacheLocked db0 w) b d s = (if d = db0 then None else cache_entry w b d s)"
  by (simp add: cache_entry_def mode_cache_def lookup_entry_def ClearCacheLocked_def)

lemma cache_inv_ClearCacheLocked:
  assumes "cache_inv w"
  shows "cache_inv (ClearCacheLocked db0 w)"
proof -
  have same: "next_addr (ClearCacheLocked db0 w) = next_addr w"
    "heap (ClearCacheLocked db0 w) = heap w"
    by (simp_all add: ClearCacheLocked_def)
  have sub: "\<And>b d s p. cache_entry (ClearCacheLocked db0 w) b d s = Some p
      \<Longrightarrow> cache_entry w b d s = Some p"
    by (simp add: cache_entry_ClearCacheLocked split: if_splits)
  from assms show ?thesis
    unfolding cache_inv_def same by (meson sub)
qed

lemma cache_inv_Get_compile:
  assumes inv: "cache_inv w" and gc: "Get_compile ops s d b status w = (r, status1, w1)"
  shows "cache_inv w1"
proof -
  from Get_compile_frame [OF gc] have
    fr: "engine w1 = engine w" "next_addr w1 = Suc (next_addr w)"
      "heap w1 (next_addr w) \<noteq> None" "\<And>a. a \<noteq> next_addr w \<Longrightarrow> heap w1 a = heap w a"
    by simp_all
  have ce: "cache_entry w1 = cache_entry w"
    by (rule cache_entry_cong [OF fr(1)])
  have alloc: "\<exists>a. p = Ptr a \<and> a < next_addr w1 \<and> heap w1 a \<noteq> None"
    if "cache_entry w b' d' s' = Some p" for b' d' s' p
  proof -
    from inv that obtain a where a: "p = Ptr a" "a < next_addr w" "heap w a \<noteq> None"
      unfolding cache_inv_def by blast
    then have "heap w1 a = heap w a"
      by (simp add: fr(4))
    with a fr(2) show ?thesis
      by simp
  qed
  from inv have "\<forall>b d s b' d' s' p.
      cache_entry w b d s = Some p \<and> cache_entry w b' d' s' = Some p \<longrightarrow>
      b = b' \<and> d = d' \<and> s = s'"
    unfolding cache_inv_def by blast
  with alloc show ?thesis
    unfolding cache_inv_def ce by blast
qed

lemma cache_inv_Get_insert:
  assumes inv: "cache_inv w"
    and fresh: "a < next_addr w" "heap w a \<noteq> None" "\<And>b d' s'. cache_entry w b d' s' \<noteq> Some (Ptr a)"
    and gi: "Get_insert s d session (Ptr a) w = (session1, w1)"
  shows "cache_inv w1"
proof (cases "cache_entry w (IsBatchRun session) d s")
  case (Some p)
  from Get_insert_present [OF Some, of "Ptr a"] gi inv show ?thesis
    by simp
next
  case None
  from Get_insert_absent [OF None, of "Ptr a"] gi have
    fr: "heap w1 = heap w" "next_addr w1 = next_addr w"
    and ce: "\<And>b d' s'. cache_entry w1 b d' s'
               = (if b = IsBatchRun session \<and> d' = d \<and> s' = s then Some (Ptr a)
                  else cache_entry w b d' s')"
    by auto
  have alloc: "\<exists>a'. p = Ptr a' \<and> a' < next_addr w1 \<and> heap w1 a' \<noteq> None"
    if "cache_entry w1 b d' s' = Some p" for b d' s' p
  proof (cases "b = IsBatchRun session \<and> d' = d \<and> s' = s")
    case True
    with that have "p = Ptr a"
      by (simp add: ce)
    with fresh fr show ?thesis
      by simp
  next
    case False
    with that have "cache_entry w b d' s' = Some p"
      by (simp add: ce)
    with inv fr show ?thesis
      unfolding cache_inv_def by simp
  qed
  have inj: "b = b' \<and> d1 = d2 \<and> s1 = s2"
    if e1: "cache_entry w1 b d1 s1 = Some p" and e2: "cache_entry w1 b' d2 s2 = Some p"
    for b d1 s1 b' d2 s2 p
  proof (cases "b = IsBatchRun session \<and> d1 = d \<and> s1 = s")
    case k1: True
    with e1 have p: "p = Ptr a"
      by (simp add: ce)
    show ?thesis
    proof (cases "b' = IsBatchRun session \<and> d2 = d \<and> s2 = s")
      case True
      with k1 show ?thesis by simp
    next
      case False
      with e2 p have "cache_entry w b' d2 s2 = Some (Ptr a)"
        by (simp add: ce)
      with fresh(3) show ?thesis
        by simp
    qed
  next
    case k1: False
    with e1 have o1: "cache_entry w b d1 s1 = Some p"
      by (simp add: ce)
    show ?thesis
    proof (cases "b' = IsBatchRun session \<and> d2 = d \<and> s2 = s")
      case True
      with e2 have "p = Ptr a"
        by (simp add: ce)
      with o1 fresh(3) show ?thesis
        by simp
    next
      case False
      with e2 have "cache_entry w b' d2 s2 = Some p"
        by (simp add: ce)
      with o1 inv show ?thesis
        unfolding cache_inv_def by blast
    qed
  qed
  from alloc inj show ?thesis
    unfolding cache_inv_def by blast
qed

lemma cache_inv_Get:
  assumes inv: "cache_inv w" and get: "Get ops s d session status w = (ok, session1, status1, w1)"
  shows "cache_inv w1"
proof (cases "GetCacheLocked d s (IsBatchRun session) w = Null")
  case False
  from Get_hit [OF refl False, of ops status] get inv show ?thesis
    by simp
next
  case True
  obtain r st wc where gc: "Get_compile ops s d (IsBatchRun session) status w = (r, st, wc)"
    by (cases "Get_compile ops s d (IsBatchRun session) status w") auto
  have invc: "cache_inv wc"
    by (rule cache_inv_Get_compile [OF inv gc])
  from Get_compile_frame [OF gc] have
    fr: "engine wc = engine w" "next_addr wc = Suc (next_addr w)"
      "heap wc (next_addr w) \<noteq> None" "r = None \<or> r = Some (Ptr (next_addr w))"
    by simp_all
  show ?thesis
  proof (cases r)
    case None
    with get True gc invc show ?thesis
      by (simp add: Get_miss)
  next
    case (Some info1)
    with fr(4) have info1: "info1 = Ptr (next_addr w)"
      by simp
    obtain s2 w2 where gi: "Get_insert s d session (Ptr (next_addr w)) wc = (s2, w2)"
      by (cases "Get_insert s d session (Ptr (next_addr w)) wc") auto
    from get True gc Some info1 gi have w1: "w1 = w2"
      by (simp add: Get_miss)
    have unused: "cache_entry wc b d' s' \<noteq> Some (Ptr (next_addr w))" for b d' s'
    proof
      assume "cache_entry wc b d' s' = Some (Ptr (next_addr w))"
      then have "cache_entry w b d' s' = Some (Ptr (next_addr w))"
        by (simp add: cache_entry_cong [OF fr(1)])
      with inv have "next_addr w < next_addr w"
        unfolding cache_inv_def by blast
      then show False by simp
    qed
    have "next_addr w < next_addr wc"
      by (simp add: fr(2))
    from cache_inv_Get_insert [OF invc this fr(3) unused gi] w1 show ?thesis
      by simp
  qed
qed

lemma Explain_frame:
  assumes "Explain ops s d b eo st w = (ok, eo1, st1, w1)"
  shows "engine w1 = engine w \<and> heap w1 = heap w \<and> next_addr w1 = next_addr w"
  using assms
  by (auto simp: Explain_def Let_def split: option.splits prod.splits if_splits)

lemma cache_inv_Explain:
  assumes inv: "cache_inv w" and ex: "Explain ops s d b eo st w = (ok, eo1, st1, w1)"
  shows "cache_inv w1"
proof -
  from Explain_frame [OF ex] have fr: "engine w1 = engine w" "heap w1 = heap w"
    "next_addr w1 = next_addr w"
    by simp_all
  from inv show ?thesis
    unfolding cache_inv_def cache_entry_cong [OF fr(1)] fr(2,3) .
qed

lemma reachable_cache_inv: "reachable ops w \<Longrightarrow> cache_inv w"
proof (induction rule: reachable.induct)
  case (reachable_new c opts)
  show ?case by (rule cache_inv_World_new)
next
  case (reachable_Get w s d session status ok session1 status1 w1)
  then show ?case by (blast intro: cache_inv_Get)
next
  case (reachable_Explain w s d b eo st ok eo1 st1 w1)
  then show ?case by (blast intro: cache_inv_Explain)
next
  case (reachable_ClearCacheLocked w d)
  then show ?case by (blast intro: cache_inv_ClearCacheLocked)
qed

text \<open>
  C1. In a world that satisfies the cache invariant, after a \<open>Get\<close> that returned true
  a second \<open>Get\<close> for the same SQL text and database with a session of the same mode
  returns true, binds its session to the very pointer the first session got (which is
  not null), and leaves the status and the whole world as they were, so the compiler
  was not called.
\<close>

theorem Get_twice_same_CompileInfo:
  assumes inv: "cache_inv w"
    and first: "Get ops s d session status w = (True, session1, status1, w1)"
    and mode: "IsBatchRun session2 = IsBatchRun session"
  shows "Get ops s d session2 status2 w1
           = (True, SetCompileInfo session2 (compile_info session1), status2, w1)
         \<and> compile_info session1 \<noteq> Null"
proof -
  have "cache_inv w1"
    by (rule cache_inv_Get [OF inv first])
  moreover have entry: "cache_entry w1 (IsBatchRun session) d s = Some (compile_info session1)"
    by (rule Get_success_cached [OF first])
  ultimately have nonnull: "compile_info session1 \<noteq> Null"
    unfolding cache_inv_def by fastforce
  from entry mode have "GetCacheLocked d s (IsBatchRun session2) w1 = compile_info session1"
    by (simp add: GetCacheLocked_entry)
  from Get_hit [OF this nonnull] nonnull show ?thesis
    by simp
qed


subsection \<open>Replacing one cache\<close>

lemma GetCacheLocked_set_request_cache:
  "GetCacheLocked d s True (set_request_cache c w) = GetCacheLocked d s True w"
  by (simp add: GetCacheLocked_def set_request_cache_def)

lemma GetCacheLocked_set_batch_cache:
  "GetCacheLocked d s False (set_batch_cache c w) = GetCacheLocked d s False w"
  by (simp add: GetCacheLocked_def set_batch_cache_def)

lemma Get_compile_set_request_cache:
  "Get_compile ops s d b status (set_request_cache c w)
     = (case Get_compile ops s d b status w of
          (r, status1, w1) \<Rightarrow> (r, status1, set_request_cache c w1))"
  by (simp add: Get_compile_def Let_def set_request_cache_def Get_compiler_def
      split: prod.splits)

lemma Get_compile_set_batch_cache:
  "Get_compile ops s d b status (set_batch_cache c w)
     = (case Get_compile ops s d b status w of
          (r, status1, w1) \<Rightarrow> (r, status1, set_batch_cache c w1))"
  by (simp add: Get_compile_def Let_def set_batch_cache_def Get_compiler_def
      split: prod.splits)

lemma Get_insert_set_request_cache:
  "IsBatchRun session \<Longrightarrow>
   Get_insert s d session info (set_request_cache c w)
     = (case Get_insert s d session info w of (session1, w1) \<Rightarrow> (session1, set_request_cache c w1))"
  by (simp add: Get_insert_def set_request_cache_def split: prod.splits)

lemma Get_insert_set_batch_cache:
  "\<not> IsBatchRun session \<Longrightarrow>
   Get_insert s d session info (set_batch_cache c w)
     = (case Get_insert s d session info w of (session1, w1) \<Rightarrow> (session1, set_batch_cache c w1))"
  by (simp add: Get_insert_def set_batch_cache_def split: prod.splits)

lemma Get_set_request_cache:
  assumes "IsBatchRun session"
  shows "Get ops s d session status (set_request_cache c w)
     = (case Get ops s d session status w of
          (ok, session1, status1, w1) \<Rightarrow> (ok, session1, status1, set_request_cache c w1))"
  using assms
  by (auto simp: Get_def Let_def GetCacheLocked_set_request_cache Get_compile_set_request_cache
      Get_insert_set_request_cache split: prod.splits option.splits)

lemma Get_set_batch_cache:
  assumes "\<not> IsBatchRun session"
  shows "Get ops s d session status (set_batch_cache c w)
     = (case Get ops s d session status w of
          (ok, session1, status1, w1) \<Rightarrow> (ok, session1, status1, set_batch_cache c w1))"
  using assms
  by (auto simp: Get_def Let_def GetCacheLocked_set_batch_cache Get_compile_set_batch_cache
      Get_insert_set_batch_cache split: prod.splits option.splits)

lemma Get_other_cache:
  assumes "Get ops s d session status w = (ok, session1, status1, w1)"
  shows "mode_cache w1 (\<not> IsBatchRun session) = mode_cache w (\<not> IsBatchRun session)"
proof (cases "GetCacheLocked d s (IsBatchRun session) w = Null")
  case False
  from Get_hit [OF refl False, of ops status] assms show ?thesis
    by simp
next
  case True
  obtain r st wc where gc: "Get_compile ops s d (IsBatchRun session) status w = (r, st, wc)"
    by (cases "Get_compile ops s d (IsBatchRun session) status w") auto
  from Get_compile_frame [OF gc] have eng: "engine wc = engine w"
    by simp
  show ?thesis
  proof (cases r)
    case None
    with assms True gc eng show ?thesis
      by (simp add: Get_miss mode_cache_def)
  next
    case (Some info1)
    obtain s2 w2 where gi: "Get_insert s d session info1 wc = (s2, w2)"
      by (cases "Get_insert s d session info1 wc") auto
    from assms True gc Some gi have "w1 = w2"
      by (simp add: Get_miss)
    with Get_insert_frame [OF gi] eng show ?thesis
      by (simp add: mode_cache_def)
  qed
qed

text \<open>
  C9. A \<open>Get\<close> with a batch session returns the request cache it was given, whatever
  that cache is, and its result does not depend on it; a \<open>Get\<close> with a request session
  treats the batch cache the same way. In a world that satisfies the cache invariant,
  two successful \<open>Get\<close> calls for the same database and SQL text with sessions of
  different modes, in either order, bind the two sessions to different objects, each
  stored at the key in the cache of its own mode.
\<close>

theorem Get_mode_isolation:
  shows "(IsBatchRun session \<longrightarrow>
            (case Get ops s d session status w of
               (ok, session1, status1, w1) \<Rightarrow>
                 request_cache (engine w1) = request_cache (engine w) \<and>
                 Get ops s d session status (set_request_cache c w)
                   = (ok, session1, status1, set_request_cache c w1))) \<and>
         (\<not> IsBatchRun session \<longrightarrow>
            (case Get ops s d session status w of
               (ok, session1, status1, w1) \<Rightarrow>
                 batch_cache (engine w1) = batch_cache (engine w) \<and>
                 Get ops s d session status (set_batch_cache c w)
                   = (ok, session1, status1, set_batch_cache c w1))) \<and>
         (cache_inv w \<and> IsBatchRun sa \<noteq> IsBatchRun sb \<and>
          Get ops s d sa status w = (True, sa1, status1, w1) \<and>
          Get ops s d sb status1 w1 = (True, sb1, status2, w2) \<longrightarrow>
            compile_info sa1 \<noteq> compile_info sb1 \<and>
            cache_entry w2 (IsBatchRun sa) d s = Some (compile_info sa1) \<and>
            cache_entry w2 (IsBatchRun sb) d s = Some (compile_info sb1))"
proof (intro conjI impI)
  assume b: "IsBatchRun session"
  obtain ok session1 st1 w' where g: "Get ops s d session status w = (ok, session1, st1, w')"
    by (cases "Get ops s d session status w") auto
  from Get_other_cache [OF g] b have "request_cache (engine w') = request_cache (engine w)"
    by (simp add: mode_cache_def)
  with g show "case Get ops s d session status w of
      (ok, session1, status1, w1) \<Rightarrow>
        request_cache (engine w1) = request_cache (engine w) \<and>
        Get ops s d session status (set_request_cache c w)
          = (ok, session1, status1, set_request_cache c w1)"
    by (simp add: Get_set_request_cache [OF b])
next
  assume b: "\<not> IsBatchRun session"
  obtain ok session1 st1 w' where g: "Get ops s d session status w = (ok, session1, st1, w')"
    by (cases "Get ops s d session status w") auto
  from Get_other_cache [OF g] b have "batch_cache (engine w') = batch_cache (engine w)"
    by (simp add: mode_cache_def)
  with g show "case Get ops s d session status w of
      (ok, session1, status1, w1) \<Rightarrow>
        batch_cache (engine w1) = batch_cache (engine w) \<and>
        Get ops s d session status (set_batch_cache c w)
          = (ok, session1, status1, set_batch_cache c w1)"
    by (simp add: Get_set_batch_cache [OF b])
next
  assume a: "cache_inv w \<and> IsBatchRun sa \<noteq> IsBatchRun sb \<and>
          Get ops s d sa status w = (True, sa1, status1, w1) \<and>
          Get ops s d sb status1 w1 = (True, sb1, status2, w2)"
  then have inv: "cache_inv w" and modes: "IsBatchRun sa = (\<not> IsBatchRun sb)"
    and g1: "Get ops s d sa status w = (True, sa1, status1, w1)"
    and g2: "Get ops s d sb status1 w1 = (True, sb1, status2, w2)"
    by auto
  have inv2: "cache_inv w2"
    by (rule cache_inv_Get [OF cache_inv_Get [OF inv g1] g2])
  have e1: "cache_entry w1 (IsBatchRun sa) d s = Some (compile_info sa1)"
    by (rule Get_success_cached [OF g1])
  from Get_other_cache [OF g2] modes
  have "mode_cache w2 (IsBatchRun sa) = mode_cache w1 (IsBatchRun sa)"
    by simp
  with e1 have ea: "cache_entry w2 (IsBatchRun sa) d s = Some (compile_info sa1)"
    by (simp add: cache_entry_def)
  have eb: "cache_entry w2 (IsBatchRun sb) d s = Some (compile_info sb1)"
    by (rule Get_success_cached [OF g2])
  have "compile_info sa1 \<noteq> compile_info sb1"
  proof
    assume "compile_info sa1 = compile_info sb1"
    with ea eb have "cache_entry w2 (IsBatchRun sa) d s = Some (compile_info sb1)"
      "cache_entry w2 (IsBatchRun sb) d s = Some (compile_info sb1)"
      by simp_all
    with inv2 have "IsBatchRun sa = IsBatchRun sb"
      unfolding cache_inv_def by blast
    with modes show False by simp
  qed
  with ea eb show "compile_info sa1 \<noteq> compile_info sb1"
    "cache_entry w2 (IsBatchRun sa) d s = Some (compile_info sa1)"
    "cache_entry w2 (IsBatchRun sb) d s = Some (compile_info sb1)"
    by simp_all
qed

text \<open>
  C8. \<open>ClearCacheLocked db\<close> leaves no entry for \<open>db\<close> in either cache and leaves the
  inner map of every other database in both caches as it was. Afterwards a \<open>Get\<close> for
  \<open>db\<close> calls the compiler, and a \<open>Get\<close> for another database whose key held a non-null
  entry before still returns that entry without changing the world.
\<close>

theorem ClearCacheLocked_scoped:
  shows "batch_cache (engine (ClearCacheLocked db0 w)) db0 = None \<and>
         request_cache (engine (ClearCacheLocked db0 w)) db0 = None \<and>
         (\<forall>d. d \<noteq> db0 \<longrightarrow>
            batch_cache (engine (ClearCacheLocked db0 w)) d = batch_cache (engine w) d \<and>
            request_cache (engine (ClearCacheLocked db0 w)) d = request_cache (engine w) d) \<and>
         (\<exists>ok session1 status1 w1 more.
            Get ops s db0 session status (ClearCacheLocked db0 w) = (ok, session1, status1, w1) \<and>
            compiler_calls w1
              = compiler_calls w
                  @ Compile_call (Get_compiler w) (Get_context s db0 (IsBatchRun session)) # more) \<and>
         (\<forall>d p. d \<noteq> db0 \<and> GetCacheLocked d s (IsBatchRun session) w = p \<and> p \<noteq> Null \<longrightarrow>
            Get ops s d session status (ClearCacheLocked db0 w)
              = (True, SetCompileInfo session p, status, ClearCacheLocked db0 w))"
proof -
  let ?w = "ClearCacheLocked db0 w"
  have miss: "GetCacheLocked db0 s (IsBatchRun session) ?w = Null"
    by (simp add: GetCacheLocked_entry cache_entry_ClearCacheLocked)
  have same: "compiler_calls ?w = compiler_calls w" "Get_compiler ?w = Get_compiler w"
    by (simp_all add: ClearCacheLocked_def Get_compiler_def)
  from Get_miss_compiles [OF miss, of ops status]
  have recompiles: "\<exists>ok session1 status1 w1 more.
            Get ops s db0 session status ?w = (ok, session1, status1, w1) \<and>
            compiler_calls w1
              = compiler_calls w
                  @ Compile_call (Get_compiler w) (Get_context s db0 (IsBatchRun session)) # more"
    by (simp add: same)
  have hits: "Get ops s d session status ?w = (True, SetCompileInfo session p, status, ?w)"
    if "d \<noteq> db0" and "GetCacheLocked d s (IsBatchRun session) w = p" and "p \<noteq> Null" for d p
  proof -
    from that(1,2) have "GetCacheLocked d s (IsBatchRun session) ?w = p"
      by (simp add: GetCacheLocked_entry cache_entry_ClearCacheLocked)
    from Get_hit [OF this that(3)] show ?thesis .
  qed
  have "batch_cache (engine ?w) db0 = None" "request_cache (engine ?w) db0 = None"
    "\<forall>d. d \<noteq> db0 \<longrightarrow> batch_cache (engine ?w) d = batch_cache (engine w) d \<and>
            request_cache (engine ?w) d = request_cache (engine w) d"
    by (simp_all add: ClearCacheLocked_def)
  with recompiles hits show ?thesis
    by blast
qed

subsection \<open>\<open>Explain\<close> and failed compilations\<close>

lemma GetCacheLocked_cong:
  "engine w1 = engine w \<Longrightarrow> GetCacheLocked d s b w1 = GetCacheLocked d s b w"
  by (simp add: GetCacheLocked_def)

lemma Explain_set_caches:
  assumes "Explain ops s d b eo st w = (ok, eo1, st1, w1)"
  shows "Explain ops s d b eo st (set_batch_cache bc (set_request_cache rc w))
           = (ok, eo1, st1, set_batch_cache bc (set_request_cache rc w1))"
  using assms
  by (auto simp: Explain_def Let_def Explain_compiler_def set_batch_cache_def
      set_request_cache_def split: option.splits prod.splits if_splits)

lemma Explain_calls:
  assumes "Explain ops s d b (Some eo) (Some st) w = (ok, eo1, st1, w1)"
  shows "compiler_calls w1
           = compiler_calls w @ [Compile_call (Explain_compiler w) (Explain_context s d b)]"
  using assms
  by (auto simp: Explain_def Let_def split: prod.splits if_splits)

lemma Explain_null:
  assumes "eo = None \<or> st = None"
  shows "Explain ops s d b eo st w = (False, eo, st, w)"
  using assms
  by (auto simp: Explain_def split: option.splits)

text \<open>
  C4. \<open>Explain\<close>, called with its two output arguments, returns both caches as it
  found them, and replacing the caches by any others changes nothing in its result, so
  it neither writes nor reads them. The call compiles from scratch: it calls \<open>Compile\<close>
  exactly once, on a new context. A key that missed before \<open>Explain\<close> misses after it:
  the next \<open>Get\<close> for it calls the compiler.
\<close>

theorem Explain_never_touches_cache:
  assumes ex: "Explain ops s d b (Some eo) (Some st) w = (ok, eo1, st1, w1)"
  shows "batch_cache (engine w1) = batch_cache (engine w) \<and>
         request_cache (engine w1) = request_cache (engine w) \<and>
         Explain ops s d b (Some eo) (Some st) (set_batch_cache bc (set_request_cache rc w))
           = (ok, eo1, st1, set_batch_cache bc (set_request_cache rc w1)) \<and>
         compiler_calls w1
           = compiler_calls w @ [Compile_call (Explain_compiler w) (Explain_context s d b)] \<and>
         (GetCacheLocked d s (IsBatchRun session) w = Null \<longrightarrow>
            GetCacheLocked d s (IsBatchRun session) w1 = Null \<and>
            (\<exists>ok2 session2 status2 w2 more.
               Get ops s d session status w1 = (ok2, session2, status2, w2) \<and>
               compiler_calls w2
                 = compiler_calls w1
                     @ Compile_call (Get_compiler w1) (Get_context s d (IsBatchRun session))
                       # more))"
proof -
  from Explain_frame [OF ex] have eng: "engine w1 = engine w"
    by simp
  have look: "GetCacheLocked d s (IsBatchRun session) w1 = GetCacheLocked d s (IsBatchRun session) w"
    by (rule GetCacheLocked_cong [OF eng])
  have calls: "compiler_calls w1
      = compiler_calls w @ [Compile_call (Explain_compiler w) (Explain_context s d b)]"
    by (rule Explain_calls [OF ex])
  have after: "\<exists>ok2 session2 status2 w2 more.
               Get ops s d session status w1 = (ok2, session2, status2, w2) \<and>
               compiler_calls w2
                 = compiler_calls w1
                     @ Compile_call (Get_compiler w1) (Get_context s d (IsBatchRun session))
                       # more"
    if "GetCacheLocked d s (IsBatchRun session) w = Null"
  proof -
    from that look have "GetCacheLocked d s (IsBatchRun session) w1 = Null"
      by simp
    then show ?thesis
      by (rule Get_miss_compiles)
  qed
  from eng Explain_set_caches [OF ex] calls after look show ?thesis
    by simp
qed

text \<open>
  A call with an absent output argument is rejected before the compiler is invoked
  (\<open>Explain_null\<close>); at the new engine it returns false and leaves the world as it was.
\<close>

lemma Explain_null_output_rejected:
  "Explain example_ops ''select 1'' ''db1'' True None (Some ok_status) world0
     = (False, None, Some ok_status, world0)"
  by (simp add: Explain_null)

text \<open>
  C5. When the lookup misses and \<open>Compile\<close> fails, or \<open>Compile\<close> succeeds, the engine is
  not compile-only and \<open>BuildRunner\<close> fails, \<open>Get\<close> returns false, the session is not
  bound, the status is the one the failing compiler call left, both caches are
  unchanged, and a following identical \<open>Get\<close> calls \<open>Compile\<close> again with the same
  compiler arguments and the same context.
\<close>

theorem Get_failure_not_cached:
  assumes miss: "GetCacheLocked d s (IsBatchRun session) w = Null"
    and comp: "Compile ops (Get_compiler w) (Get_context s d (IsBatchRun session)) status
                 = (ok, ctx1, status1)"
    and build: "BuildRunner ops (Get_compiler w) ctx1 status1 = (ok2, ctx2, status2)"
    and fails: "(\<not> ok \<or> 0 \<noteq> code status1) \<or>
                (\<not> is_compile_only (options (engine w)) \<and> (\<not> ok2 \<or> 0 \<noteq> code status2))"
  shows "\<exists>w1. Get ops s d session status w
                 = (False, session, if \<not> ok \<or> 0 \<noteq> code status1 then status1 else status2, w1) \<and>
              batch_cache (engine w1) = batch_cache (engine w) \<and>
              request_cache (engine w1) = request_cache (engine w) \<and>
              (\<exists>ok3 session3 status3 w3 more.
                 Get ops s d session status w1 = (ok3, session3, status3, w3) \<and>
                 compiler_calls w3
                   = compiler_calls w1
                       @ Compile_call (Get_compiler w) (Get_context s d (IsBatchRun session))
                         # more)"
proof -
  let ?st = "if \<not> ok \<or> 0 \<noteq> code status1 then status1 else status2"
  have "\<exists>wc. Get_compile ops s d (IsBatchRun session) status w = (None, ?st, wc)"
  proof (cases "\<not> ok \<or> 0 \<noteq> code status1")
    case True
    then show ?thesis
      by (simp add: Get_compile_def Let_def comp)
  next
    case False
    with fails have "\<not> is_compile_only (options (engine w))" "\<not> ok2 \<or> 0 \<noteq> code status2"
      by simp_all
    with False show ?thesis
      by (simp add: Get_compile_def Let_def comp build)
  qed
  then obtain wc where
    gc: "Get_compile ops s d (IsBatchRun session) status w = (None, ?st, wc)"
    by blast
  from Get_compile_frame [OF gc] have eng: "engine wc = engine w"
    by simp
  from gc have get: "Get ops s d session status w = (False, session, ?st, wc)"
    by (simp add: Get_miss [OF miss])
  from miss have miss1: "GetCacheLocked d s (IsBatchRun session) wc = Null"
    by (simp add: GetCacheLocked_cong [OF eng])
  from eng have "Get_compiler wc = Get_compiler w"
    by (simp add: Get_compiler_def)
  with Get_miss_compiles [OF miss1, of ops status]
  have "\<exists>ok3 session3 status3 w3 more.
                 Get ops s d session status wc = (ok3, session3, status3, w3) \<and>
                 compiler_calls w3
                   = compiler_calls wc
                       @ Compile_call (Get_compiler w) (Get_context s d (IsBatchRun session))
                         # more"
    by simp
  with get eng show ?thesis
    by simp
qed

subsection \<open>The example worlds\<close>

lemma GetCacheLocked_world0: "GetCacheLocked d s b world0 = Null"
  by (simp add: GetCacheLocked_entry world0_def cache_entry_World_new)

lemma cache_inv_world0: "cache_inv world0"
  by (simp add: world0_def cache_inv_World_new)

lemma next_addr_world0: "next_addr world0 = 0"
  by (simp add: world0_def World_new_def)

lemma Get_compile_example:
  assumes "s \<noteq> []" and "d \<noteq> []"
  shows "\<exists>w1. Get_compile example_ops s d b ok_status w = (Some (Ptr (next_addr w)), ok_status, w1)"
  using assms
  by (simp add: Get_compile_def Let_def example_ops_def ok_status_def Get_context_def)

lemma Get_example_miss:
  assumes miss: "cache_entry w (IsBatchRun session) d s = None"
    and ne: "s \<noteq> []" "d \<noteq> []"
  shows "\<exists>w2. Get example_ops s d session ok_status w
                 = (True, SetCompileInfo session (Ptr (next_addr w)), ok_status, w2) \<and>
              next_addr w2 = Suc (next_addr w)"
proof -
  from Get_compile_example [OF ne] obtain wc where
    gc: "Get_compile example_ops s d (IsBatchRun session) ok_status w
           = (Some (Ptr (next_addr w)), ok_status, wc)"
    by blast
  from Get_compile_frame [OF gc] have eng: "engine wc = engine w"
    and na: "next_addr wc = Suc (next_addr w)"
    by simp_all
  from miss have "cache_entry wc (IsBatchRun session) d s = None"
    by (simp add: cache_entry_cong [OF eng])
  from Get_insert_absent [OF this, of "Ptr (next_addr w)"] obtain w2 where
    gi: "Get_insert s d session (Ptr (next_addr w)) wc
           = (SetCompileInfo session (Ptr (next_addr w)), w2)"
    and na2: "next_addr w2 = next_addr wc"
    by blast
  from miss have "GetCacheLocked d s (IsBatchRun session) w = Null"
    by (simp add: GetCacheLocked_entry)
  with gc gi have "Get example_ops s d session ok_status w
      = (True, SetCompileInfo session (Ptr (next_addr w)), ok_status, w2)"
    by (simp add: Get_miss)
  with na na2 show ?thesis
    by simp
qed

lemma Get_world0:
  "Get example_ops ''select 1'' ''db1'' (RunSession_new True) ok_status world0
     = (True, SetCompileInfo (RunSession_new True) (Ptr 0), ok_status, world1)"
proof -
  have "cache_entry world0 (IsBatchRun (RunSession_new True)) ''db1'' ''select 1'' = None"
    by (simp add: world0_def cache_entry_World_new)
  from Get_example_miss [OF this] obtain w2 where
    "Get example_ops ''select 1'' ''db1'' (RunSession_new True) ok_status world0
       = (True, SetCompileInfo (RunSession_new True) (Ptr (next_addr world0)), ok_status, w2)"
    by auto
  then show ?thesis
    by (simp add: world1_def next_addr_world0)
qed

lemma next_addr_world1: "next_addr world1 = 1"
proof -
  have "cache_entry world0 (IsBatchRun (RunSession_new True)) ''db1'' ''select 1'' = None"
    by (simp add: world0_def cache_entry_World_new)
  from Get_example_miss [OF this] obtain w2 where
    "Get example_ops ''select 1'' ''db1'' (RunSession_new True) ok_status world0
       = (True, SetCompileInfo (RunSession_new True) (Ptr (next_addr world0)), ok_status, w2)"
    and "next_addr w2 = Suc (next_addr world0)"
    by auto
  then show ?thesis
    by (simp add: world1_def next_addr_world0)
qed

lemma cache_entry_world1: "cache_entry world1 True ''db1'' ''select 1'' = Some (Ptr 0)"
  using Get_success_cached [OF Get_world0]
  by (simp add: IsBatchRun_def RunSession_new_def SetCompileInfo_def)

lemma request_cache_world1: "request_cache (engine world1) = Map.empty"
  using Get_other_cache [OF Get_world0]
  by (simp add: mode_cache_def IsBatchRun_def RunSession_new_def world0_def World_new_def
      Engine_new_def)

lemma Get_world1:
  "Get example_ops ''select 1'' ''db1'' (RunSession_new False) ok_status world1
     = (True, SetCompileInfo (RunSession_new False) (Ptr 1), ok_status, world2)"
proof -
  have "cache_entry world1 (IsBatchRun (RunSession_new False)) ''db1'' ''select 1'' = None"
    by (simp add: cache_entry_def mode_cache_def lookup_entry_def request_cache_world1
        IsBatchRun_def RunSession_new_def)
  from Get_example_miss [OF this] obtain w2 where
    "Get example_ops ''select 1'' ''db1'' (RunSession_new False) ok_status world1
       = (True, SetCompileInfo (RunSession_new False) (Ptr (next_addr world1)), ok_status, w2)"
    by auto
  then show ?thesis
    by (simp add: world2_def next_addr_world1)
qed


subsection \<open>The properties at the example worlds\<close>

theorem Get_twice_same_CompileInfo_witness:
  "cache_inv world0 \<and>
   Get example_ops ''select 1'' ''db1'' (RunSession_new True) ok_status world0
     = (True, SetCompileInfo (RunSession_new True) (Ptr 0), ok_status, world1) \<and>
   Get example_ops ''select 1'' ''db1'' (RunSession_new True) ok_status world1
     = (True, SetCompileInfo (RunSession_new True) (Ptr 0), ok_status, world1)"
proof -
  from Get_twice_same_CompileInfo [OF cache_inv_world0 Get_world0 refl, of ok_status]
  have "Get example_ops ''select 1'' ''db1'' (RunSession_new True) ok_status world1
     = (True, SetCompileInfo (RunSession_new True) (Ptr 0), ok_status, world1)"
    by (simp add: SetCompileInfo_def)
  with cache_inv_world0 Get_world0 show ?thesis
    by simp
qed


theorem Get_mode_isolation_witness:
  "cache_inv world0 \<and>
   Get example_ops ''select 1'' ''db1'' (RunSession_new True) ok_status world0
     = (True, SetCompileInfo (RunSession_new True) (Ptr 0), ok_status, world1) \<and>
   Get example_ops ''select 1'' ''db1'' (RunSession_new False) ok_status world1
     = (True, SetCompileInfo (RunSession_new False) (Ptr 1), ok_status, world2) \<and>
   request_cache (engine world1) = request_cache (engine world0) \<and>
   batch_cache (engine world2) = batch_cache (engine world1) \<and>
   cache_entry world2 True ''db1'' ''select 1'' = Some (Ptr 0) \<and>
   cache_entry world2 False ''db1'' ''select 1'' = Some (Ptr 1)"
proof -
  have b: "IsBatchRun (RunSession_new True)" "\<not> IsBatchRun (RunSession_new False)"
    by (simp_all add: IsBatchRun_def RunSession_new_def)
  from Get_mode_isolation [where session = "RunSession_new True" and ops = example_ops
      and s = "''select 1''" and d = "''db1''" and status = ok_status and w = world0]
    b(1) Get_world0
  have r1: "request_cache (engine world1) = request_cache (engine world0)"
    by simp
  from Get_mode_isolation [where session = "RunSession_new False" and ops = example_ops
      and s = "''select 1''" and d = "''db1''" and status = ok_status and w = world1]
    b(2) Get_world1
  have r2: "batch_cache (engine world2) = batch_cache (engine world1)"
    by simp
  from Get_mode_isolation [where ops = example_ops
      and s = "''select 1''" and d = "''db1''" and status = ok_status and w = world0
      and sa = "RunSession_new True" and sb = "RunSession_new False"
      and ?sa1.0 = "SetCompileInfo (RunSession_new True) (Ptr 0)" and ?status1.0 = ok_status
      and ?w1.0 = world1 and ?sb1.0 = "SetCompileInfo (RunSession_new False) (Ptr 1)"
      and ?status2.0 = ok_status and ?w2.0 = world2]
    b cache_inv_world0 Get_world0 Get_world1
  have "cache_entry world2 True ''db1'' ''select 1'' = Some (Ptr 0)"
    "cache_entry world2 False ''db1'' ''select 1'' = Some (Ptr 1)"
    by (simp_all add: SetCompileInfo_def)
  with cache_inv_world0 Get_world0 Get_world1 r1 r2 show ?thesis
    by simp
qed

lemma Explain_world0:
  "Explain example_ops ''select 1'' ''db1'' True (Some empty_output) (Some ok_status) world0
     = (True, Some (empty_output\<lparr>eo_physical_plan := ''select 1''\<rparr>), Some ok_status,
        world0\<lparr>compiler_calls :=
          [Compile_call (Explain_compiler world0) (Explain_context ''select 1'' ''db1'' True)]\<rparr>)"
  by (simp add: Explain_def Let_def example_ops_def ok_status_def Explain_context_def
      SQLContext_new_def empty_output_def world0_def World_new_def)

theorem Explain_never_touches_cache_witness:
  "Explain example_ops ''select 1'' ''db1'' True (Some empty_output) (Some ok_status) world0
     = (True, Some (empty_output\<lparr>eo_physical_plan := ''select 1''\<rparr>), Some ok_status,
        world0\<lparr>compiler_calls :=
          [Compile_call (Explain_compiler world0) (Explain_context ''select 1'' ''db1'' True)]\<rparr>) \<and>
   batch_cache (engine (world0\<lparr>compiler_calls :=
          [Compile_call (Explain_compiler world0) (Explain_context ''select 1'' ''db1'' True)]\<rparr>))
     = batch_cache (engine world0) \<and>
   GetCacheLocked ''db1'' ''select 1'' True world0 = Null \<and>
   GetCacheLocked ''db1'' ''select 1'' True (world0\<lparr>compiler_calls :=
          [Compile_call (Explain_compiler world0) (Explain_context ''select 1'' ''db1'' True)]\<rparr>)
     = Null"
proof -
  have b: "IsBatchRun (RunSession_new True)"
    by (simp add: IsBatchRun_def RunSession_new_def)
  from Explain_never_touches_cache [OF Explain_world0,
      where session = "RunSession_new True"]
    GetCacheLocked_world0 [of "''db1''" "''select 1''" True] b Explain_world0
  show ?thesis
    by simp
qed

theorem Get_failure_not_cached_witness:
  "GetCacheLocked ''db1'' [] True world0 = Null \<and>
   fst (Get example_ops [] ''db1'' (RunSession_new True) ok_status world0) = False \<and>
   fst (snd (snd (Get example_ops [] ''db1'' (RunSession_new True) ok_status world0)))
     = \<lparr>code = 1, msg = ''empty statement''\<rparr> \<and>
   batch_cache (engine (snd (snd (snd
       (Get example_ops [] ''db1'' (RunSession_new True) ok_status world0)))))
     = batch_cache (engine world0)"
proof -
  have miss: "GetCacheLocked ''db1'' [] (IsBatchRun (RunSession_new True)) world0 = Null"
    by (rule GetCacheLocked_world0)
  have comp: "Compile example_ops (Get_compiler world0)
       (Get_context [] ''db1'' (IsBatchRun (RunSession_new True))) ok_status
     = (False, Get_context [] ''db1'' (IsBatchRun (RunSession_new True)),
        \<lparr>code = 1, msg = ''empty statement''\<rparr>)"
    by (simp add: example_ops_def Get_context_def)
  have build: "BuildRunner example_ops (Get_compiler world0)
       (Get_context [] ''db1'' (IsBatchRun (RunSession_new True)))
       \<lparr>code = 1, msg = ''empty statement''\<rparr>
     = (True,
        (Get_context [] ''db1'' (IsBatchRun (RunSession_new True)))
          \<lparr>runner := Some (constant_runner (Some (RowHandler [])))\<rparr>,
        \<lparr>code = 1, msg = ''empty statement''\<rparr>)"
    by (simp add: example_ops_def Get_context_def)
  have fails: "(\<not> False \<or> 0 \<noteq> code \<lparr>code = 1, msg = ''empty statement''\<rparr>) \<or>
     (\<not> is_compile_only (options (engine world0)) \<and>
      (\<not> True \<or> 0 \<noteq> code \<lparr>code = 1, msg = ''empty statement''\<rparr>))"
    by simp
  from Get_failure_not_cached [OF miss comp build fails] GetCacheLocked_world0 [of "''db1''" "[]" True]
  show ?thesis
    by auto
qed

theorem ClearCacheLocked_scoped_witness:
  "''db1'' \<noteq> ''db2'' \<and>
   GetCacheLocked ''db1'' ''select 1'' True world1 = Ptr 0 \<and>
   Get example_ops ''select 1'' ''db1'' (RunSession_new True) ok_status
       (ClearCacheLocked ''db2'' world1)
     = (True, SetCompileInfo (RunSession_new True) (Ptr 0), ok_status,
        ClearCacheLocked ''db2'' world1) \<and>
   batch_cache (engine (ClearCacheLocked ''db2'' world1)) ''db1''
     = batch_cache (engine world1) ''db1'' \<and>
   batch_cache (engine (ClearCacheLocked ''db1'' world1)) ''db1'' = None \<and>
   GetCacheLocked ''db1'' ''select 1'' True (ClearCacheLocked ''db1'' world1) = Null"
proof -
  have b: "IsBatchRun (RunSession_new True)"
    by (simp add: IsBatchRun_def RunSession_new_def)
  have hit: "GetCacheLocked ''db1'' ''select 1'' True world1 = Ptr 0"
    by (simp add: GetCacheLocked_entry cache_entry_world1)
  have gone: "GetCacheLocked ''db1'' ''select 1'' True (ClearCacheLocked ''db1'' world1) = Null"
    by (simp add: GetCacheLocked_entry cache_entry_ClearCacheLocked)
  from ClearCacheLocked_scoped [where ?db0.0 = "''db2''" and w = world1 and ops = example_ops
      and s = "''select 1''" and session = "RunSession_new True" and status = ok_status]
    ClearCacheLocked_scoped [where ?db0.0 = "''db1''" and w = world1 and ops = example_ops
      and s = "''select 1''" and session = "RunSession_new True" and status = ok_status]
    hit gone b
  show ?thesis
    by simp
qed

end
